theory Spec2Isabelle
  imports Main "HOL-Library.Word"
begin

section \<open>The Mixxx controller mapping of djcontroller.js (src/mapping/mixxx.ts)\<close>

text \<open>
  A shallow embedding of \<^verbatim>\<open>src/mapping/mixxx.ts\<close>: the parser of a Mixxx mapping
  document (\<^verbatim>\<open>parseMidiMapping\<close> and the functions it calls), the deck resolver
  \<^verbatim>\<open>deckFromGroup\<close>, and the two translation methods \<^verbatim>\<open>fromMidi\<close> and
  \<^verbatim>\<open>toMidi\<close> of the class \<^verbatim>\<open>MixxxControllerMapping\<close>.

  A JavaScript exception is a value: every function of the source that can throw returns
  \<open>error + 'a\<close>, with \<open>Inl\<close> for the exception. The only exception the modelled code can
  raise is the runtime's \<^verbatim>\<open>TypeError\<close>, thrown when a property is read from
  \<^verbatim>\<open>undefined\<close> or \<^verbatim>\<open>null\<close>.
\<close>

datatype error = TypeError

subsection \<open>JavaScript numbers and \<^verbatim>\<open>parseInt\<close>\<close>

text \<open>
  The numbers of the source are results of \<^verbatim>\<open>parseInt\<close> and bytes of a MIDI message.
  A Number is a double: here \<^verbatim>\<open>NaN\<close>, an infinity, or \<open>Num i\<close>, the finite double
  whose value is the integer \<open>i\<close> (no other finite double arises from \<^verbatim>\<open>parseInt\<close>;
  the two zeros are one value, as they are for \<^verbatim>\<open>===\<close>).
\<close>

datatype jsnum = NaN | Num int | PosInfinity | NegInfinity

text \<open>The number of binary digits of a positive integer.\<close>

function bitLength :: "int \<Rightarrow> nat" where
  "bitLength n = (if n \<le> 0 then 0 else Suc (bitLength (n div 2)))"
  by pat_completeness auto
termination
  by (relation "measure nat") auto

declare bitLength.simps [simp del]

text \<open>
  The Number of a mathematical integer: the integer itself below \<open>2 ^ 53\<close>; beyond, the
  nearest integer with 53 significant binary digits, a tie going to the even one, and an
  infinity from \<open>2 ^ 1024\<close> on.
\<close>

definition toNumber :: "int \<Rightarrow> jsnum" where
  "toNumber i =
     (let a = \<bar>i\<bar>
      in if a < 2 ^ 53 then Num i
         else
           let e = bitLength a - 53;
               q = a div 2 ^ e;
               r = a mod 2 ^ e;
               h = 2 ^ (e - 1);
               q' = (if h < r \<or> (r = h \<and> odd q) then q + 1 else q);
               v = q' * 2 ^ e
           in if 2 ^ 1024 \<le> v then (if i < 0 then NegInfinity else PosInfinity)
              else Num (if i < 0 then - v else v))"

text \<open>
  A character of a string is a code unit below 256. The white space that \<^verbatim>\<open>parseInt\<close>
  and \<^verbatim>\<open>trim\<close> skip is, among these, TAB, LF, VT, FF, CR, the space and the no-break
  space \<^verbatim>\<open>U+00A0\<close>; the other white-space code units of the language lie above 255.
\<close>

definition isWhiteSpace :: "char \<Rightarrow> bool" where
  "isWhiteSpace c =
     (c \<in> set [CHR '' '', CHR 0x09, CHR 0x0A, CHR 0x0B, CHR 0x0C, CHR 0x0D, CHR 0xA0])"

definition isDigit :: "char \<Rightarrow> bool" where
  "isDigit c = (c \<in> set ''0123456789'')"

text \<open>The value of a character as a digit of the radix, if it is one.\<close>

definition digitValue :: "nat \<Rightarrow> char \<Rightarrow> nat option" where
  "digitValue radix c =
     (let n = (of_char c :: nat);
          v = (if 48 \<le> n \<and> n \<le> 57 then Some (n - 48)
               else if 97 \<le> n \<and> n \<le> 122 then Some (n - 87)
               else if 65 \<le> n \<and> n \<le> 90 then Some (n - 55)
               else None)
      in case v of None \<Rightarrow> None | Some d \<Rightarrow> if d < radix then Some d else None)"

definition isRadixDigit :: "nat \<Rightarrow> char \<Rightarrow> bool" where
  "isRadixDigit radix c = (digitValue radix c \<noteq> None)"

definition digitsValue :: "nat \<Rightarrow> string \<Rightarrow> int" where
  "digitsValue radix ds =
     foldl (\<lambda>acc c. acc * int radix + int (case digitValue radix c of Some d \<Rightarrow> d | None \<Rightarrow> 0)) 0 ds"

text \<open>
  \<^verbatim>\<open>parseInt(string)\<close>, called without a radix: leading white space is skipped, a sign
  is read, a prefix \<^verbatim>\<open>0x\<close> or \<^verbatim>\<open>0X\<close> selects radix 16 (radix 10 otherwise), and the
  longest prefix of digits is read as an integer in that radix; whatever follows is
  ignored. The result is the Number of that integer with its sign. No digit at all gives
  \<^verbatim>\<open>NaN\<close>. It never throws. (For more than 20 significant decimal digits the language
  standard lets an implementation read the further digits as zeros; the model takes the
  integer as written.)
\<close>

definition parseInt :: "string \<Rightarrow> jsnum" where
  "parseInt s =
     (let s1 = dropWhile isWhiteSpace s;
          neg = (case s1 of c # _ \<Rightarrow> c = CHR ''-'' | [] \<Rightarrow> False);
          s2 = (case s1 of c # r \<Rightarrow> if c = CHR ''-'' \<or> c = CHR ''+'' then r else s1 | [] \<Rightarrow> s1);
          hex = (take 2 s2 = ''0x'' \<or> take 2 s2 = ''0X'');
          radix = (if hex then 16 else 10);
          s3 = (if hex then drop 2 s2 else s2);
          ds = takeWhile (isRadixDigit radix) s3
      in if ds = [] then NaN
         else toNumber ((if neg then - 1 else 1) * digitsValue radix ds))"

subsection \<open>The element tree and its flattener\<close>

text \<open>
  The document parser is an external library; the mapping parser consumes its tree. An
  element has a tag name, a text content and ordered children; any other node (text,
  comment, CDATA) is \<open>XmlText\<close>.
\<close>

datatype XmlNode =
    XmlElement (xml_name: string) (xml_text: string) (xml_children: "XmlNode list")
  | XmlText string

datatype XmlDocument = XmlDocument (root: XmlNode)

fun isXmlElement :: "XmlNode \<Rightarrow> bool" where
  "isXmlElement (XmlElement _ _ _) = True"
| "isXmlElement (XmlText _) = False"

definition trim :: "string \<Rightarrow> string" where
  "trim s = rev (dropWhile isWhiteSpace (rev (dropWhile isWhiteSpace s)))"

text \<open>
  Modelled from the spec: the helper \<^verbatim>\<open>xmlToObject\<close> of \<^verbatim>\<open>src/utils\<close>, whose source
  is not part of the files at hand. The specification (4.1) describes it: from an ordered
  sequence of child nodes it produces a lookup from tag name to a view of that element
  with its trimmed text content and its own children; for a repeated tag name the first
  occurrence is the one returned. The source calls it with an element and with the
  children of an element; the model takes the children in both cases.
\<close>

fun xmlToObject :: "XmlNode list \<Rightarrow> (string \<rightharpoonup> XmlNode)" where
  "xmlToObject [] = Map.empty"
| "xmlToObject (XmlElement n t cs # rest) = (xmlToObject rest)(n \<mapsto> XmlElement n (trim t) cs)"
| "xmlToObject (XmlText _ # rest) = xmlToObject rest"

subsection \<open>The mapping table\<close>

record MappingInfo =
  name :: "string option"
  author :: "string option"
  description :: "string option"

record BaseMapping =
  group :: string
  key :: string
  status :: jsnum
  midino :: jsnum

record ControlMapping = BaseMapping +
  options :: "string list"

record OutputMapping = BaseMapping +
  minimum :: "jsnum option"
  maximum :: "jsnum option"
  on :: "jsnum option"
  off :: "jsnum option"

record MidiMapping =
  info :: MappingInfo
  controls :: "ControlMapping list"
  outputs :: "OutputMapping list"

subsection \<open>Parsing\<close>

text \<open>
  \<^verbatim>\<open>Array.prototype.flatMap\<close> with a callback that can throw: the first exception
  ends the loop.
\<close>

fun flatMap :: "('a \<Rightarrow> error + 'b list) \<Rightarrow> 'a list \<Rightarrow> error + 'b list" where
  "flatMap f [] = Inr []"
| "flatMap f (x # xs) =
     (case f x of
        Inl e \<Rightarrow> Inl e
      | Inr ys \<Rightarrow> (case flatMap f xs of Inl e \<Rightarrow> Inl e | Inr zs \<Rightarrow> Inr (ys @ zs)))"

text \<open>\<^verbatim>\<open>childs.name?.text\<close>: an absent child gives \<^verbatim>\<open>undefined\<close>, here \<open>None\<close>.\<close>

definition parseMappingInfo :: "XmlNode \<Rightarrow> MappingInfo" where
  "parseMappingInfo xml =
     (let childs = xmlToObject (xml_children xml)
      in \<lparr> name = map_option xml_text (childs ''name''),
           author = map_option xml_text (childs ''author''),
           description = map_option xml_text (childs ''description'') \<rparr>)"

text \<open>
  \<^verbatim>\<open>childs.group.text\<close> and its three siblings read a property of \<^verbatim>\<open>undefined\<close> when
  the child is absent: a \<^verbatim>\<open>TypeError\<close>. The fields are evaluated in the order of the
  object literal.
\<close>

definition parseBaseMapping :: "XmlNode \<Rightarrow> error + BaseMapping" where
  "parseBaseMapping xml =
     (let childs = xmlToObject (xml_children xml)
      in case childs ''group'' of None \<Rightarrow> Inl TypeError | Some g \<Rightarrow>
         (case childs ''key'' of None \<Rightarrow> Inl TypeError | Some k \<Rightarrow>
         (case childs ''status'' of None \<Rightarrow> Inl TypeError | Some s \<Rightarrow>
         (case childs ''midino'' of None \<Rightarrow> Inl TypeError | Some m \<Rightarrow>
            Inr \<lparr> group = xml_text g, key = xml_text k,
                  status = parseInt (xml_text s), midino = parseInt (xml_text m) \<rparr>))))"

definition parseControlMapping :: "XmlNode \<Rightarrow> error + ControlMapping" where
  "parseControlMapping xml =
     (let childs = xmlToObject (xml_children xml)
      in case parseBaseMapping xml of Inl e \<Rightarrow> Inl e | Inr b \<Rightarrow>
         (case childs ''options'' of None \<Rightarrow> Inl TypeError | Some os \<Rightarrow>
            Inr (BaseMapping.extend b
                   (ControlMapping.fields
                      (concat (map (\<lambda>c. if isXmlElement c then [xml_name c] else [])
                                   (xml_children os)))))))"

text \<open>The optional fields of an output are not read (the source has a TODO there).\<close>

definition parseOutputMapping :: "XmlNode \<Rightarrow> error + OutputMapping" where
  "parseOutputMapping xml =
     (case parseBaseMapping xml of Inl e \<Rightarrow> Inl e | Inr b \<Rightarrow>
        Inr (BaseMapping.extend b (OutputMapping.fields None None None None)))"

text \<open>
  \<^verbatim>\<open>parseMidiMapping\<close>. Without a \<^verbatim>\<open>controller\<close> child the variable
  \<^verbatim>\<open>controller\<close> is the empty object \<^verbatim>\<open>{}\<close>, which is not nullish: the optional
  chain \<^verbatim>\<open>controller?.controls.children\<close> goes on to read \<^verbatim>\<open>children\<close> of
  \<^verbatim>\<open>undefined\<close> and throws, as it does when the \<^verbatim>\<open>controller\<close> element has no
  \<^verbatim>\<open>controls\<close> (or \<^verbatim>\<open>outputs\<close>) child.
\<close>

definition parseMidiMapping :: "XmlDocument \<Rightarrow> error + MidiMapping" where
  "parseMidiMapping xml =
     (let preset = root xml
      in if \<not> isXmlElement preset then Inl TypeError
         else
           let childs = xmlToObject (xml_children preset);
               controller = (case childs ''controller'' of
                               Some c \<Rightarrow> xmlToObject (xml_children c)
                             | None \<Rightarrow> Map.empty);
               info = (case childs ''info'' of
                         Some i \<Rightarrow> parseMappingInfo i
                       | None \<Rightarrow> \<lparr> name = None, author = None, description = None \<rparr>)
           in case controller ''controls'' of None \<Rightarrow> Inl TypeError | Some cs \<Rightarrow>
              (case flatMap (\<lambda>c. if isXmlElement c
                                   then map_sum id (\<lambda>m. [m]) (parseControlMapping c)
                                   else Inr [])
                            (xml_children cs) of
                 Inl e \<Rightarrow> Inl e
               | Inr ctrls \<Rightarrow>
                   (case controller ''outputs'' of None \<Rightarrow> Inl TypeError | Some os \<Rightarrow>
                      (case flatMap (\<lambda>c. if isXmlElement c
                                           then map_sum id (\<lambda>m. [m]) (parseOutputMapping c)
                                           else Inr [])
                                    (xml_children os) of
                         Inl e \<Rightarrow> Inl e
                       | Inr outs \<Rightarrow>
                           Inr \<lparr> info = info, controls = ctrls, outputs = outs \<rparr>))))"

subsection \<open>The deck of a group\<close>

text \<open>
  \<^verbatim>\<open>/\[Channel(\d+)\]/\<close> tried at the start of a string. \<^verbatim>\<open>\d+\<close> is greedy and takes
  the whole run of digits; giving digits back cannot help, since the character after a
  shorter run is a digit and not \<^verbatim>\<open>]\<close>. The result is the capture group.
\<close>

definition matchHere :: "string \<Rightarrow> string option" where
  "matchHere s =
     (if take 8 s = ''[Channel''
      then let ds = takeWhile isDigit (drop 8 s);
               r = dropWhile isDigit (drop 8 s)
           in if ds \<noteq> [] \<and> take 1 r = '']'' then Some ds else None
      else None)"

text \<open>\<^verbatim>\<open>RegExp.prototype.exec\<close> without the sticky flag: the leftmost match.\<close>

fun regexExec :: "string \<Rightarrow> string option" where
  "regexExec [] = matchHere []"
| "regexExec (c # cs) =
     (case matchHere (c # cs) of Some ds \<Rightarrow> Some ds | None \<Rightarrow> regexExec cs)"

definition deckFromGroup :: "string \<Rightarrow> jsnum option" where
  "deckFromGroup g = (case regexExec g of Some ds \<Rightarrow> Some (parseInt ds) | None \<Rightarrow> None)"

text \<open>
  The pattern of the specification (4.3), as an occurrence in a group string: after the
  prefix \<open>p\<close> comes the bracketed literal \<^verbatim>\<open>Channel\<close> with the digits \<open>n\<close>, one
  or more, and then the rest \<open>s\<close>.
\<close>

definition occursAt :: "string \<Rightarrow> string \<Rightarrow> string \<Rightarrow> string \<Rightarrow> bool" where
  "occursAt g p n s = (n \<noteq> [] \<and> list_all isDigit n \<and> g = p @ ''[Channel'' @ n @ '']'' @ s)"

text \<open>
  The group has the form of the specification as a whole: the bracketed literal
  \<^verbatim>\<open>Channel\<close> with one or more digits, and nothing before or after.
\<close>

definition isChannelGroup :: "string \<Rightarrow> bool" where
  "isChannelGroup g =
     (take 8 g = ''[Channel'' \<and> drop 8 g \<noteq> [] \<and> last (drop 8 g) = CHR '']'' \<and>
      butlast (drop 8 g) \<noteq> [] \<and> list_all isDigit (butlast (drop 8 g)))"

subsection \<open>MIDI messages, actions and the two translations\<close>

text \<open>
  Modelled from the spec: the types \<^verbatim>\<open>MidiMessage\<close>, \<^verbatim>\<open>Action\<close> and \<^verbatim>\<open>Output\<close>, whose
  declarations are not part of the files at hand. A message has a status byte and an
  array of data bytes (\<^verbatim>\<open>msg.data[0]\<close>, \<^verbatim>\<open>msg.data[1]\<close> in the source; three bytes on
  the wire). An action is the object literal that \<^verbatim>\<open>fromMidi\<close> builds. The output
  state holds the application's values by group and key.
\<close>

record MidiMessage =
  status_byte :: "8 word"
  data :: "8 word list"

datatype Control = Play

datatype Action = Press (control: Control) (deck: "jsnum option") (down: bool)

datatype OutputValue = NumberValue int | BoolValue bool

type_synonym Output = "string \<times> string \<rightharpoonup> OutputValue"

record MixxxControllerMapping =
  midiMapping :: MidiMapping
  jsMappingSrc :: "string option"

text \<open>Reading an array at an index: \<^verbatim>\<open>undefined\<close> past its end.\<close>

definition at_index :: "'a list \<Rightarrow> nat \<Rightarrow> 'a option" where
  "at_index xs i = (if i < length xs then Some (xs ! i) else None)"

text \<open>
  \<^verbatim>\<open>===\<close> of a parsed number and a byte: \<^verbatim>\<open>NaN\<close> equals nothing, and neither an
  infinity nor \<^verbatim>\<open>undefined\<close> equals a byte.
\<close>

fun strictEq :: "jsnum \<Rightarrow> 8 word option \<Rightarrow> bool" where
  "strictEq (Num i) (Some w) = (i = uint w)"
| "strictEq _ _ = False"

definition parse :: "XmlDocument \<Rightarrow> string option \<Rightarrow> error + MixxxControllerMapping" where
  "parse xmlMapping js =
     (case parseMidiMapping xmlMapping of
        Inl e \<Rightarrow> Inl e
      | Inr m \<Rightarrow> Inr \<lparr> midiMapping = m, jsMappingSrc = js \<rparr>)"

text \<open>
  \<^verbatim>\<open>fromMidi\<close>. \<^verbatim>\<open>find\<close> returns \<^verbatim>\<open>undefined\<close> when no control matches, and
  \<^verbatim>\<open>control.group\<close> then throws.
\<close>

definition matches :: "MidiMessage \<Rightarrow> ControlMapping \<Rightarrow> bool" where
  "matches msg c =
     (strictEq (status c) (Some (status_byte msg)) \<and> strictEq (midino c) (at_index (data msg) 0))"

definition fromMidi :: "MixxxControllerMapping \<Rightarrow> MidiMessage \<Rightarrow> error + Action list" where
  "fromMidi this msg =
     (let control = find (matches msg) (controls (midiMapping this));
          down = (case at_index (data msg) 1 of Some w \<Rightarrow> 0 < uint w | None \<Rightarrow> False)
      in case control of
           None \<Rightarrow> Inl TypeError
         | Some c \<Rightarrow>
             (let deck = deckFromGroup (group c)
              in if key c = ''play'' then Inr [Press Play deck down] else Inr []))"

definition toMidi :: "MixxxControllerMapping \<Rightarrow> Output \<Rightarrow> MidiMessage list" where
  "toMidi this output = []"

subsection \<open>The document shape of the specification\<close>

text \<open>
  The elements that the specification calls the \<^verbatim>\<open>control\<close> and \<^verbatim>\<open>output\<close> elements
  of a document: the element children of \<^verbatim>\<open>controller/controls\<close> and of
  \<^verbatim>\<open>controller/outputs\<close> under the root.
\<close>

definition bindingElements :: "string \<Rightarrow> XmlDocument \<Rightarrow> XmlNode list" where
  "bindingElements section doc =
     (case xmlToObject (xml_children (root doc)) ''controller'' of
        None \<Rightarrow> []
      | Some ctrl \<Rightarrow>
          (case xmlToObject (xml_children ctrl) section of
             None \<Rightarrow> []
           | Some l \<Rightarrow> filter isXmlElement (xml_children l)))"

definition controlElements :: "XmlDocument \<Rightarrow> XmlNode list" where
  "controlElements doc = bindingElements ''controls'' doc"

definition outputElements :: "XmlDocument \<Rightarrow> XmlNode list" where
  "outputElements doc = bindingElements ''outputs'' doc"

text \<open>A binding element lacks one of its four required children.\<close>

definition missingRequired :: "XmlNode \<Rightarrow> bool" where
  "missingRequired c =
     (xmlToObject (xml_children c) ''group'' = None \<or>
      xmlToObject (xml_children c) ''key'' = None \<or>
      xmlToObject (xml_children c) ''status'' = None \<or>
      xmlToObject (xml_children c) ''midino'' = None)"

text \<open>
  The root is an element with a \<^verbatim>\<open>controller\<close> child that has both a \<^verbatim>\<open>controls\<close>
  and an \<^verbatim>\<open>outputs\<close> child.
\<close>

definition hasBindingLists :: "XmlDocument \<Rightarrow> bool" where
  "hasBindingLists doc =
     (isXmlElement (root doc) \<and>
      (case xmlToObject (xml_children (root doc)) ''controller'' of
         None \<Rightarrow> False
       | Some ctrl \<Rightarrow>
           xmlToObject (xml_children ctrl) ''controls'' \<noteq> None \<and>
           xmlToObject (xml_children ctrl) ''outputs'' \<noteq> None))"

text \<open>
  The base fields of a binding are those of the element: the texts of \<^verbatim>\<open>group\<close> and
  \<^verbatim>\<open>key\<close>, and \<^verbatim>\<open>parseInt\<close> of the texts of \<^verbatim>\<open>status\<close> and \<^verbatim>\<open>midino\<close>.
\<close>

definition readsFrom :: "XmlNode \<Rightarrow> 'a BaseMapping_scheme \<Rightarrow> bool" where
  "readsFrom c b =
     (case (xmlToObject (xml_children c) ''group'', xmlToObject (xml_children c) ''key'',
            xmlToObject (xml_children c) ''status'', xmlToObject (xml_children c) ''midino'') of
        (Some g, Some k, Some s, Some n) \<Rightarrow>
          group b = xml_text g \<and> key b = xml_text k \<and>
          status b = parseInt (xml_text s) \<and> midino b = parseInt (xml_text n)
      | _ \<Rightarrow> False)"

section \<open>Auxiliary facts\<close>

subsection \<open>Digits and \<^verbatim>\<open>parseInt\<close>\<close>

lemma toNumber_exact: "\<bar>i\<bar> < 2 ^ 53 \<Longrightarrow> toNumber i = Num i"
  by (simp add: toNumber_def Let_def)

lemma toNumber_not_NaN: "toNumber i \<noteq> NaN"
  by (simp add: toNumber_def Let_def)

text \<open>Beyond \<open>2 ^ 53\<close> the digits are rounded, as the code's \<^verbatim>\<open>parseInt\<close> rounds them.\<close>

lemma toNumber_rounds_even: "toNumber 9007199254740993 = Num 9007199254740992"
  by code_simp

lemma parseInt_rounds: "parseInt ''9007199254740993'' = Num 9007199254740992"
  by code_simp

lemma parseInt_skips_no_break_space: "parseInt [CHR 0xA0, CHR ''1'', CHR ''2''] = Num 12"
  by code_simp

lemma digitsValue_snoc:
  "digitsValue radix (ds @ [c]) =
     digitsValue radix ds * int radix
       + int (case digitValue radix c of Some d \<Rightarrow> d | None \<Rightarrow> 0)"
  by (simp add: digitsValue_def)

lemma digitValue_below: "digitValue radix c = Some d \<Longrightarrow> d < radix"
  by (auto simp: digitValue_def Let_def split: if_splits option.splits)

lemma digitsValue_bounds:
  assumes "0 < radix"
  shows "0 \<le> digitsValue radix ds \<and> digitsValue radix ds < int radix ^ length ds"
proof (induction ds rule: rev_induct)
  case Nil
  then show ?case by (simp add: digitsValue_def)
next
  case (snoc c ds)
  define d where "d = (case digitValue radix c of Some d \<Rightarrow> d | None \<Rightarrow> 0)"
  define v where "v = digitsValue radix ds"
  define b where "b = int radix ^ length ds"
  have v: "0 \<le> v" "v + 1 \<le> b" using snoc.IH by (simp_all add: v_def b_def)
  have d: "int d + 1 \<le> int radix"
    using assms by (auto simp: d_def dest: digitValue_below split: option.splits)
  have "(v + 1) * int radix \<le> b * int radix"
    using v(2) by (rule mult_right_mono) simp
  then have "v * int radix + int d < b * int radix"
    using d by (simp add: algebra_simps)
  moreover have "0 \<le> v * int radix + int d" using v(1) by simp
  ultimately show ?case
    by (simp add: digitsValue_snoc d_def[symmetric] v_def[symmetric] b_def[symmetric]
        mult.commute)
qed

lemma digits_exact:
  assumes "length ds \<le> 15"
  shows "toNumber (digitsValue 10 ds) = Num (digitsValue 10 ds)"
proof -
  have "digitsValue 10 ds < 10 ^ length ds" "0 \<le> digitsValue 10 ds"
    using digitsValue_bounds[of 10 ds] by simp_all
  moreover have "(10::int) ^ length ds \<le> 10 ^ 15"
    using assms by (intro power_increasing) simp_all
  ultimately have "\<bar>digitsValue 10 ds\<bar> < 2 ^ 53" by simp
  then show ?thesis by (rule toNumber_exact)
qed

lemma isDigit_radix10: "isDigit c \<Longrightarrow> isRadixDigit 10 c"
  by (auto simp: isDigit_def isRadixDigit_def digitValue_def)

lemma isDigit_not_space: "isDigit c \<Longrightarrow> \<not> isWhiteSpace c"
  by (auto simp: isDigit_def isWhiteSpace_def)

lemma isDigit_not_special: "isDigit c \<Longrightarrow> c \<noteq> CHR ''-'' \<and> c \<noteq> CHR ''+'' \<and> c \<noteq> CHR ''x'' \<and> c \<noteq> CHR ''X'' \<and> c \<noteq> CHR '']'' \<and> c \<noteq> CHR ''[''"
  by (auto simp: isDigit_def)

lemma parseInt_digits:
  assumes "ds \<noteq> []" and "list_all isDigit ds"
  shows "parseInt ds = toNumber (digitsValue 10 ds)"
proof -
  from assms obtain c r where ds: "ds = c # r" and c: "isDigit c" and r: "list_all isDigit r"
    by (cases ds) auto
  have s1: "dropWhile isWhiteSpace ds = ds"
    using c by (simp add: ds isDigit_not_space)
  have nohex: "take 2 ds \<noteq> ''0x'' \<and> take 2 ds \<noteq> ''0X''"
  proof (cases r)
    case Nil
    then show ?thesis by (simp add: ds)
  next
    case (Cons d r')
    with r have "isDigit d" by simp
    then show ?thesis using Cons by (auto simp: ds dest: isDigit_not_special)
  qed
  have tw: "takeWhile (isRadixDigit 10) ds = ds"
    using assms(2) by (auto simp: list_all_iff isDigit_radix10 takeWhile_eq_all_conv)
  have neg: "(case ds of c # _ \<Rightarrow> c = CHR ''-'' | [] \<Rightarrow> False) = False"
    using isDigit_not_special[OF c] by (simp add: ds)
  have s2: "(case ds of c # r \<Rightarrow> if c = CHR ''-'' \<or> c = CHR ''+'' then r else ds | [] \<Rightarrow> ds) = ds"
    using isDigit_not_special[OF c] by (simp add: ds)
  show ?thesis
    using nohex assms(1) by (simp add: parseInt_def Let_def s1 neg s2 tw)
qed

subsection \<open>The regular expression\<close>

lemma matchHere_Some_iff:
  "matchHere g = Some ds \<longleftrightarrow>
     ds \<noteq> [] \<and> list_all isDigit ds \<and> (\<exists>s. g = ''[Channel'' @ ds @ '']'' @ s)"
proof
  assume m: "matchHere g = Some ds"
  then have pre: "take 8 g = ''[Channel''"
    by (auto simp: matchHere_def split: if_splits)
  from m pre have ds: "ds = takeWhile isDigit (drop 8 g)" and ne: "ds \<noteq> []"
    and br: "take 1 (dropWhile isDigit (drop 8 g)) = '']''"
    by (auto simp: matchHere_def Let_def split: if_splits)
  from br obtain s where s: "dropWhile isDigit (drop 8 g) = '']'' @ s"
    by (cases "dropWhile isDigit (drop 8 g)") auto
  have "g = take 8 g @ drop 8 g" by simp
  also have "drop 8 g = ds @ dropWhile isDigit (drop 8 g)"
    by (simp add: ds)
  finally have "g = ''[Channel'' @ ds @ '']'' @ s"
    using pre s by simp
  moreover have "list_all isDigit ds"
    by (auto simp: ds list_all_iff dest: set_takeWhileD)
  ultimately show "ds \<noteq> [] \<and> list_all isDigit ds \<and> (\<exists>s. g = ''[Channel'' @ ds @ '']'' @ s)"
    using ne by blast
next
  assume r: "ds \<noteq> [] \<and> list_all isDigit ds \<and> (\<exists>s. g = ''[Channel'' @ ds @ '']'' @ s)"
  then obtain s where g: "g = ''[Channel'' @ ds @ '']'' @ s" by blast
  from r have all: "\<And>x. x \<in> set ds \<Longrightarrow> isDigit x" by (simp add: list_all_iff)
  have nd: "\<not> isDigit CHR '']''" by (simp add: isDigit_def)
  have d8: "drop 8 g = ds @ CHR '']'' # s" by (simp add: g)
  have tw: "takeWhile isDigit (drop 8 g) = ds"
    using all nd by (simp add: d8 takeWhile_append2)
  have dw: "dropWhile isDigit (drop 8 g) = CHR '']'' # s"
    using all nd by (simp add: d8 dropWhile_append2)
  have t8: "take 8 g = ''[Channel''" by (simp add: g)
  show "matchHere g = Some ds"
    using r by (simp add: matchHere_def t8 tw dw)
qed

lemma regexExec_here: "matchHere g = Some ds \<Longrightarrow> regexExec g = Some ds"
  by (cases g) auto

lemma regexExec_skip:
  "(\<And>p1 p2. p = p1 @ p2 \<Longrightarrow> p2 \<noteq> [] \<Longrightarrow> matchHere (p2 @ g) = None) \<Longrightarrow>
   regexExec (p @ g) = regexExec g"
proof (induction p)
  case Nil
  then show ?case by simp
next
  case (Cons c p)
  have "matchHere ((c # p) @ g) = None"
    using Cons.prems[of "[]" "c # p"] by simp
  moreover have "regexExec (p @ g) = regexExec g"
  proof (rule Cons.IH)
    fix p1 p2 assume "p = p1 @ p2" "p2 \<noteq> []"
    then show "matchHere (p2 @ g) = None"
      using Cons.prems[of "c # p1" p2] by simp
  qed
  ultimately show ?case by simp
qed

lemma regexExec_Some_D:
  "regexExec g = Some ds \<Longrightarrow>
   \<exists>p s. g = p @ s \<and> matchHere s = Some ds \<and>
     (\<forall>p1 p2. p = p1 @ p2 \<longrightarrow> p2 \<noteq> [] \<longrightarrow> matchHere (p2 @ s) = None)"
proof (induction g)
  case Nil
  then have "matchHere [] = Some ds" by simp
  then show ?case by (simp add: matchHere_def)
next
  case (Cons c g)
  show ?case
  proof (cases "matchHere (c # g)")
    case (Some d)
    with Cons.prems have "matchHere (c # g) = Some ds" by simp
    then have "c # g = [] @ (c # g) \<and> matchHere (c # g) = Some ds \<and>
       (\<forall>p1 p2. [] = p1 @ p2 \<longrightarrow> p2 \<noteq> [] \<longrightarrow> matchHere (p2 @ (c # g)) = None)" by simp
    then show ?thesis by blast
  next
    case None
    with Cons.prems have "regexExec g = Some ds" by simp
    from Cons.IH[OF this] obtain p s where g: "g = p @ s" and m: "matchHere s = Some ds"
      and e: "\<forall>p1 p2. p = p1 @ p2 \<longrightarrow> p2 \<noteq> [] \<longrightarrow> matchHere (p2 @ s) = None" by blast
    have "\<forall>p1 p2. c # p = p1 @ p2 \<longrightarrow> p2 \<noteq> [] \<longrightarrow> matchHere (p2 @ s) = None"
    proof (intro allI impI)
      fix p1 p2 assume a: "c # p = p1 @ p2" "p2 \<noteq> []"
      show "matchHere (p2 @ s) = None"
      proof (cases p1)
        case Nil
        with a have "p2 @ s = c # g" by (simp add: g)
        then show ?thesis using None by simp
      next
        case (Cons a' p1')
        with a have "p = p1' @ p2" by simp
        then show ?thesis using e a(2) by blast
      qed
    qed
    moreover have "c # g = (c # p) @ s" by (simp add: g)
    ultimately show ?thesis using m by blast
  qed
qed

lemma regexExec_None_iff:
  "regexExec g = None \<longleftrightarrow> (\<forall>p s. g = p @ s \<longrightarrow> matchHere s = None)"
proof (induction g)
  case Nil
  then show ?case by simp
next
  case (Cons c g)
  show ?case
  proof
    assume n: "regexExec (c # g) = None"
    then have h: "matchHere (c # g) = None" and t: "regexExec g = None"
      by (auto split: option.splits)
    show "\<forall>p s. c # g = p @ s \<longrightarrow> matchHere s = None"
    proof (intro allI impI)
      fix p s assume a: "c # g = p @ s"
      show "matchHere s = None"
      proof (cases p)
        case Nil
        with a h show ?thesis by simp
      next
        case (Cons a' p')
        with a have "g = p' @ s" by simp
        with t Cons.IH show ?thesis by blast
      qed
    qed
  next
    assume a: "\<forall>p s. c # g = p @ s \<longrightarrow> matchHere s = None"
    then have h: "matchHere (c # g) = None" by (metis append_Nil)
    have "\<forall>p s. g = p @ s \<longrightarrow> matchHere s = None"
      using a by (metis append_Cons)
    with Cons.IH have "regexExec g = None" by blast
    with h show "regexExec (c # g) = None" by simp
  qed
qed

lemma matchHere_occursAt: "matchHere s0 = Some ds \<longleftrightarrow> (\<exists>s. occursAt s0 [] ds s)"
  by (simp add: matchHere_Some_iff occursAt_def)

lemma occursAt_suffix: "occursAt s0 [] n s \<Longrightarrow> occursAt (p @ s0) p n s"
  by (simp add: occursAt_def)

lemma occursAt_prefix: "occursAt g p n s \<Longrightarrow> \<exists>s0. g = p @ s0 \<and> occursAt s0 [] n s"
  by (simp add: occursAt_def)

lemma deckFromGroup_None_iff:
  "deckFromGroup g = None \<longleftrightarrow> \<not> (\<exists>p n s. occursAt g p n s)"
proof -
  have "deckFromGroup g = None \<longleftrightarrow> regexExec g = None"
    by (simp add: deckFromGroup_def split: option.splits)
  also have "\<dots> \<longleftrightarrow> (\<forall>p s0. g = p @ s0 \<longrightarrow> matchHere s0 = None)"
    by (rule regexExec_None_iff)
  also have "\<dots> \<longleftrightarrow> \<not> (\<exists>p n s. occursAt g p n s)"
  proof
    assume a: "\<forall>p s0. g = p @ s0 \<longrightarrow> matchHere s0 = None"
    show "\<not> (\<exists>p n s. occursAt g p n s)"
    proof
      assume "\<exists>p n s. occursAt g p n s"
      then obtain p n s where "occursAt g p n s" by blast
      then obtain s0 where "g = p @ s0" "occursAt s0 [] n s"
        using occursAt_prefix by blast
      then have "g = p @ s0" "matchHere s0 = Some n"
        by (auto simp: matchHere_occursAt)
      with a show False by simp
    qed
  next
    assume a: "\<not> (\<exists>p n s. occursAt g p n s)"
    show "\<forall>p s0. g = p @ s0 \<longrightarrow> matchHere s0 = None"
    proof (intro allI impI)
      fix p s0 assume g: "g = p @ s0"
      show "matchHere s0 = None"
      proof (cases "matchHere s0")
        case None then show ?thesis .
      next
        case (Some ds)
        then obtain s where "occursAt s0 [] ds s" by (auto simp: matchHere_occursAt)
        with g have "occursAt g p ds s" by (simp add: occursAt_suffix)
        with a show ?thesis by blast
      qed
    qed
  qed
  finally show ?thesis .
qed

lemma occursAt_earlier:
  assumes "occursAt (p' @ s0) q m t" and "length q < length p'"
  shows "\<exists>p1 p2. p' = p1 @ p2 \<and> p2 \<noteq> [] \<and> matchHere (p2 @ s0) = Some m"
proof -
  from assms(1) have eq: "p' @ s0 = q @ ''[Channel'' @ m @ '']'' @ t"
    and m: "m \<noteq> []" "list_all isDigit m"
    by (auto simp: occursAt_def)
  define p2 where "p2 = drop (length q) p'"
  have "take (length q) (p' @ s0) = take (length q) p'"
    using assms(2) by simp
  moreover have "take (length q) (q @ ''[Channel'' @ m @ '']'' @ t) = q"
    by simp
  ultimately have q: "q = take (length q) p'"
    using eq by simp
  have p': "p' = q @ p2"
    unfolding p2_def using q by (metis append_take_drop_id)
  have ne: "p2 \<noteq> []" using assms(2) by (simp add: p2_def)
  from eq p' have "p2 @ s0 = ''[Channel'' @ m @ '']'' @ t" by simp
  then have "matchHere (p2 @ s0) = Some m"
    using m by (simp add: matchHere_Some_iff)
  with p' ne show ?thesis by blast
qed

lemma regexExec_digits: "regexExec g = Some ds \<Longrightarrow> ds \<noteq> [] \<and> list_all isDigit ds"
proof -
  assume "regexExec g = Some ds"
  from regexExec_Some_D[OF this] obtain s where "matchHere s = Some ds" by blast
  then show ?thesis by (simp add: matchHere_Some_iff)
qed

lemma deckFromGroup_number:
  "deckFromGroup g = None \<or>
   (\<exists>ds. ds \<noteq> [] \<and> list_all isDigit ds \<and>
         deckFromGroup g = Some (toNumber (digitsValue 10 ds)))"
proof (cases "regexExec g")
  case None
  then show ?thesis by (simp add: deckFromGroup_def)
next
  case (Some ds)
  then have d: "ds \<noteq> [] \<and> list_all isDigit ds" by (rule regexExec_digits)
  then have "parseInt ds = toNumber (digitsValue 10 ds)"
    using parseInt_digits by blast
  with Some d show ?thesis by (auto simp: deckFromGroup_def)
qed

lemma deckFromGroup_not_NaN: "deckFromGroup g \<noteq> Some NaN"
  using deckFromGroup_number[of g] toNumber_not_NaN by auto

lemma isChannelGroup_iff: "isChannelGroup g \<longleftrightarrow> (\<exists>n. occursAt g [] n [])"
proof
  assume a: "isChannelGroup g"
  define r where "r = drop 8 g"
  from a have t: "take 8 g = ''[Channel''" and ne: "r \<noteq> []" and l: "last r = CHR '']''"
    and b: "butlast r \<noteq> []" "list_all isDigit (butlast r)"
    by (simp_all add: isChannelGroup_def r_def)
  have "g = take 8 g @ r" by (simp add: r_def)
  also have "r = butlast r @ [last r]" using ne by simp
  finally have "g = ''[Channel'' @ butlast r @ '']'' @ []" using t l by simp
  with b have "occursAt g [] (butlast r) []" by (simp add: occursAt_def)
  then show "\<exists>n. occursAt g [] n []" ..
next
  assume "\<exists>n. occursAt g [] n []"
  then obtain n where n: "n \<noteq> []" "list_all isDigit n" and g: "g = ''[Channel'' @ n @ '']''"
    by (auto simp: occursAt_def)
  show "isChannelGroup g"
    using n by (simp add: isChannelGroup_def g butlast_append)
qed

subsection \<open>\<^verbatim>\<open>find\<close> and \<^verbatim>\<open>flatMap\<close>\<close>

lemma find_append_Cons:
  "find P (xs @ y # ys) =
     (case find P xs of Some x \<Rightarrow> Some x | None \<Rightarrow> if P y then Some y else find P ys)"
  by (induction xs) auto

lemma find_None_set: "(\<forall>x\<in>set xs. \<not> P x) \<Longrightarrow> find P xs = None"
  by (induction xs) auto

lemma error_is_TypeError: "(e::error) = TypeError"
  by (cases e) simp

lemma flatMap_Inl: "x \<in> set xs \<Longrightarrow> f x = Inl e \<Longrightarrow> flatMap f xs = Inl TypeError"
proof (induction xs)
  case Nil
  then show ?case by simp
next
  case (Cons a xs)
  show ?case
  proof (cases "f a")
    case (Inl e')
    then show ?thesis by (simp add: error_is_TypeError[of e'])
  next
    case (Inr ys)
    with Cons.prems have "x \<in> set xs" by auto
    then have "flatMap f xs = Inl TypeError" using Cons.IH Cons.prems(2) by blast
    with Inr show ?thesis by simp
  qed
qed

lemma flatMap_Inr:
  "(\<And>x. x \<in> set xs \<Longrightarrow> f x = Inr (g x)) \<Longrightarrow> flatMap f xs = Inr (concat (map g xs))"
  by (induction xs) simp_all

lemma concat_map_elements:
  "concat (map (\<lambda>c. if P c then [h c] else []) xs) = map h (filter P xs)"
  by (induction xs) simp_all

subsection \<open>Parsing one binding element\<close>

lemma parseBaseMapping_missing: "missingRequired c \<Longrightarrow> parseBaseMapping c = Inl TypeError"
  by (auto simp: missingRequired_def parseBaseMapping_def Let_def split: option.splits)

lemma parseBaseMapping_complete:
  "\<not> missingRequired c \<Longrightarrow> \<exists>b. parseBaseMapping c = Inr b \<and> readsFrom c b"
  by (auto simp: missingRequired_def parseBaseMapping_def readsFrom_def)

lemma readsFrom_extend: "readsFrom c b \<Longrightarrow> readsFrom c (BaseMapping.extend b x)"
  by (auto simp: readsFrom_def BaseMapping.defs split: option.splits)

lemma parseControlMapping_missing:
  "missingRequired c \<Longrightarrow> parseControlMapping c = Inl TypeError"
  by (simp add: parseControlMapping_def parseBaseMapping_missing)

lemma parseOutputMapping_missing:
  "missingRequired c \<Longrightarrow> parseOutputMapping c = Inl TypeError"
  by (simp add: parseOutputMapping_def parseBaseMapping_missing)

lemma parseControlMapping_complete:
  assumes "\<not> missingRequired c" and "xmlToObject (xml_children c) ''options'' \<noteq> None"
  shows "\<exists>b. parseControlMapping c = Inr b \<and> readsFrom c b"
proof -
  from parseBaseMapping_complete[OF assms(1)] obtain b
    where b: "parseBaseMapping c = Inr b" "readsFrom c b" by blast
  from assms(2) obtain os where "xmlToObject (xml_children c) ''options'' = Some os" by blast
  with b show ?thesis
    by (simp add: parseControlMapping_def readsFrom_extend)
qed

lemma parseOutputMapping_complete:
  assumes "\<not> missingRequired c"
  shows "\<exists>b. parseOutputMapping c = Inr b \<and> readsFrom c b"
proof -
  from parseBaseMapping_complete[OF assms(1)] obtain b
    where b: "parseBaseMapping c = Inr b" "readsFrom c b" by blast
  then show ?thesis
    by (simp add: parseOutputMapping_def readsFrom_extend)
qed

lemma flatMap_elements_fail:
  assumes "c \<in> set (filter isXmlElement xs)" and "p c = Inl TypeError"
  shows "flatMap (\<lambda>c. if isXmlElement c then map_sum id (\<lambda>m. [m]) (p c) else Inr []) xs
           = Inl TypeError"
proof (rule flatMap_Inl)
  show "c \<in> set xs" using assms(1) by simp
  show "(if isXmlElement c then map_sum id (\<lambda>m. [m]) (p c) else Inr []) = Inl TypeError"
    using assms by simp
qed

lemma flatMap_elements_ok:
  assumes "\<And>c. c \<in> set (filter isXmlElement xs) \<Longrightarrow> \<exists>b. p c = Inr b \<and> R c b"
  shows "\<exists>bs. flatMap (\<lambda>c. if isXmlElement c then map_sum id (\<lambda>m. [m]) (p c) else Inr []) xs
                = Inr bs \<and> list_all2 R (filter isXmlElement xs) bs"
proof -
  let ?f = "\<lambda>c. if isXmlElement c then map_sum id (\<lambda>m. [m]) (p c) else Inr []"
  let ?h = "\<lambda>c. projr (p c)"
  have "flatMap ?f xs = Inr (concat (map (\<lambda>c. if isXmlElement c then [?h c] else []) xs))"
  proof (rule flatMap_Inr)
    fix x assume "x \<in> set xs"
    show "?f x = Inr (if isXmlElement x then [?h x] else [])"
    proof (cases "isXmlElement x")
      case True
      with \<open>x \<in> set xs\<close> obtain b where "p x = Inr b" using assms[of x] by auto
      with True show ?thesis by simp
    next
      case False
      then show ?thesis by simp
    qed
  qed
  then have e: "flatMap ?f xs = Inr (map ?h (filter isXmlElement xs))"
    by (simp only: concat_map_elements)
  have "list_all2 R (filter isXmlElement xs) (map ?h (filter isXmlElement xs))"
  proof (simp only: list_all2_map2, rule list_all2_same[THEN iffD2], rule ballI)
    fix c assume c: "c \<in> set (filter isXmlElement xs)"
    then obtain b where "p c = Inr b" "R c b" using assms[of c] by blast
    then show "R c (projr (p c))" by simp
  qed
  with e show ?thesis by blast
qed

subsection \<open>Failing lookups\<close>

text \<open>No matching control: \<^verbatim>\<open>find\<close> gives \<^verbatim>\<open>undefined\<close> and \<^verbatim>\<open>fromMidi\<close> throws.\<close>

lemma fromMidi_no_match:
  "find (matches msg) (controls (midiMapping this)) = None \<Longrightarrow> fromMidi this msg = Inl TypeError"
  by (simp add: fromMidi_def)

text \<open>No \<^verbatim>\<open>controller\<close> child under the root: \<^verbatim>\<open>parse\<close> throws.\<close>

lemma parse_no_controller:
  "xmlToObject (xml_children (root doc)) ''controller'' = None \<Longrightarrow> parse doc js = Inl TypeError"
  by (simp add: parse_def parseMidiMapping_def Let_def)

section \<open>The claims\<close>

subsection \<open>C1: a message that no control matches\<close>

text \<open>
  Claim C1 says that \<^verbatim>\<open>fromMidi\<close> returns the empty sequence, and does not fail, when
  no control has the status and note of the message, in particular when there is no
  control at all. The code reads \<^verbatim>\<open>control.group\<close> without looking whether \<^verbatim>\<open>find\<close>
  found a control: with an empty \<^verbatim>\<open>controls\<close> array and the message
  \<^verbatim>\<open>(0x90, 0x20, 0x7F)\<close> it throws a \<^verbatim>\<open>TypeError\<close>.
\<close>

theorem fromMidi_unmapped_throws:
  "fromMidi \<lparr> midiMapping = \<lparr> info = \<lparr> name = None, author = None, description = None \<rparr>,
                               controls = [], outputs = [] \<rparr>,
              jsMappingSrc = None \<rparr>
            \<lparr> status_byte = 0x90, data = [0x20, 0x7F] \<rparr> = Inl TypeError"
  by (simp add: fromMidi_def)

subsection \<open>C2: a binding element without a required child\<close>

text \<open>
  Claim C2, as amended: when a \<^verbatim>\<open>control\<close> element of \<^verbatim>\<open>controller/controls\<close> or an
  \<^verbatim>\<open>output\<close> element of \<^verbatim>\<open>controller/outputs\<close> lacks one of the children
  \<^verbatim>\<open>group\<close>, \<^verbatim>\<open>key\<close>, \<^verbatim>\<open>status\<close>, \<^verbatim>\<open>midino\<close>, \<^verbatim>\<open>parse\<close> fails and produces no
  mapping. The failure is the \<^verbatim>\<open>TypeError\<close> of reading \<^verbatim>\<open>text\<close> from the missing
  child; the code has no error class of its own.
\<close>

theorem parse_missing_field_throws:
  assumes "c \<in> set (controlElements doc) \<or> c \<in> set (outputElements doc)"
    and "missingRequired c"
  shows "parse doc js = Inl TypeError"
proof -
  obtain ctrl where ctrl: "xmlToObject (xml_children (root doc)) ''controller'' = Some ctrl"
  proof (cases "xmlToObject (xml_children (root doc)) ''controller''")
    case None
    with assms(1) have False
      by (simp add: controlElements_def outputElements_def bindingElements_def)
    then show ?thesis ..
  next
    case (Some x)
    then show ?thesis by (rule that)
  qed
  have "parseMidiMapping doc = Inl TypeError"
  proof (cases "xmlToObject (xml_children ctrl) ''controls''")
    case None
    then show ?thesis by (simp add: parseMidiMapping_def Let_def ctrl)
  next
    case (Some cs)
    show ?thesis
    proof (cases "c \<in> set (controlElements doc)")
      case True
      then have "c \<in> set (filter isXmlElement (xml_children cs))"
        by (simp add: controlElements_def bindingElements_def ctrl Some)
      then have "flatMap (\<lambda>c. if isXmlElement c then map_sum id (\<lambda>m. [m]) (parseControlMapping c)
                                else Inr []) (xml_children cs) = Inl TypeError"
        using parseControlMapping_missing[OF assms(2)] by (rule flatMap_elements_fail)
      then show ?thesis by (simp add: parseMidiMapping_def Let_def ctrl Some)
    next
      case False
      with assms(1) have out: "c \<in> set (outputElements doc)" by simp
      obtain os where os: "xmlToObject (xml_children ctrl) ''outputs'' = Some os"
      proof (cases "xmlToObject (xml_children ctrl) ''outputs''")
        case None
        with out have False
          by (simp add: outputElements_def bindingElements_def ctrl)
        then show ?thesis ..
      next
        case (Some x)
        then show ?thesis by (rule that)
      qed
      with out have "c \<in> set (filter isXmlElement (xml_children os))"
        by (simp add: outputElements_def bindingElements_def ctrl)
      then have "flatMap (\<lambda>c. if isXmlElement c then map_sum id (\<lambda>m. [m]) (parseOutputMapping c)
                                else Inr []) (xml_children os) = Inl TypeError"
        using parseOutputMapping_missing[OF assms(2)] by (rule flatMap_elements_fail)
      then show ?thesis
        by (simp add: parseMidiMapping_def Let_def ctrl Some os error_is_TypeError split: sum.splits)
    qed
  qed
  then show ?thesis by (simp add: parse_def)
qed

text \<open>
  The amended claim C2 at a document whose only \<^verbatim>\<open>control\<close> has no \<^verbatim>\<open>status\<close> child.
\<close>

theorem parse_missing_field_throws_witness:
  "XmlElement ''control'' [] [
     XmlElement ''group'' ''[Channel1]'' [],
     XmlElement ''key'' ''play'' [],
     XmlElement ''midino'' ''0x20'' [],
     XmlElement ''options'' [] []]
   \<in> set (controlElements (XmlDocument (XmlElement ''MixxxControllerPreset'' [] [
            XmlElement ''controller'' [] [
              XmlElement ''controls'' [] [
                XmlElement ''control'' [] [
                  XmlElement ''group'' ''[Channel1]'' [],
                  XmlElement ''key'' ''play'' [],
                  XmlElement ''midino'' ''0x20'' [],
                  XmlElement ''options'' [] []]],
              XmlElement ''outputs'' [] []]]))) \<and>
   missingRequired (XmlElement ''control'' [] [
     XmlElement ''group'' ''[Channel1]'' [],
     XmlElement ''key'' ''play'' [],
     XmlElement ''midino'' ''0x20'' [],
     XmlElement ''options'' [] []]) \<and>
   parse (XmlDocument (XmlElement ''MixxxControllerPreset'' [] [
            XmlElement ''controller'' [] [
              XmlElement ''controls'' [] [
                XmlElement ''control'' [] [
                  XmlElement ''group'' ''[Channel1]'' [],
                  XmlElement ''key'' ''play'' [],
                  XmlElement ''midino'' ''0x20'' [],
                  XmlElement ''options'' [] []]],
              XmlElement ''outputs'' [] []]])) None = Inl TypeError"
proof -
  let ?c = "XmlElement ''control'' [] [
     XmlElement ''group'' ''[Channel1]'' [],
     XmlElement ''key'' ''play'' [],
     XmlElement ''midino'' ''0x20'' [],
     XmlElement ''options'' [] []]"
  let ?doc = "XmlDocument (XmlElement ''MixxxControllerPreset'' [] [
            XmlElement ''controller'' [] [
              XmlElement ''controls'' [] [?c],
              XmlElement ''outputs'' [] []]])"
  have h1: "?c \<in> set (controlElements ?doc)"
    by (simp add: controlElements_def bindingElements_def trim_def)
  have h2: "missingRequired ?c"
    by (simp add: missingRequired_def)
  from h1 have h1': "?c \<in> set (controlElements ?doc) \<or> ?c \<in> set (outputElements ?doc)" ..
  have h3: "parse ?doc None = Inl TypeError"
    by (rule parse_missing_field_throws[OF h1' h2])
  show ?thesis
    by (rule conjI[OF h1 conjI[OF h2 h3]])
qed

text \<open>
  Claim C2 as stated also asks for a failure when the text of \<^verbatim>\<open>status\<close> is not a
  number. There \<^verbatim>\<open>parseInt\<close> returns \<^verbatim>\<open>NaN\<close> and \<^verbatim>\<open>parse\<close> succeeds: the document
  below has the status text \<^verbatim>\<open>abc\<close> and parses to a mapping whose control has the
  status \<^verbatim>\<open>NaN\<close>.
\<close>

theorem parse_non_numeric_counterexample:
  "parse (XmlDocument (XmlElement ''MixxxControllerPreset'' [] [
            XmlElement ''controller'' [] [
              XmlElement ''controls'' [] [
                XmlElement ''control'' [] [
                  XmlElement ''group'' ''[Channel1]'' [],
                  XmlElement ''key'' ''play'' [],
                  XmlElement ''status'' ''abc'' [],
                  XmlElement ''midino'' ''0x20'' [],
                  XmlElement ''options'' [] []]],
              XmlElement ''outputs'' [] []]])) None
   = Inr \<lparr> midiMapping =
            \<lparr> info = \<lparr> name = None, author = None, description = None \<rparr>,
              controls = [\<lparr> group = ''[Channel1]'', key = ''play'', status = NaN,
                            midino = Num 32, options = [] \<rparr>],
              outputs = [] \<rparr>,
          jsMappingSrc = None \<rparr>"
  by (simp add: parse_def parseMidiMapping_def parseControlMapping_def parseBaseMapping_def
      parseInt_def toNumber_def isWhiteSpace_def isRadixDigit_def digitValue_def digitsValue_def trim_def
      BaseMapping.defs ControlMapping.defs)

subsection \<open>C3: a document without a controller element\<close>

text \<open>
  Claim C3 says that \<^verbatim>\<open>parse\<close> succeeds with empty \<^verbatim>\<open>controls\<close> and \<^verbatim>\<open>outputs\<close> when
  the root has no \<^verbatim>\<open>controller\<close> child. The code prepares for that case with
  \<^verbatim>\<open>: {}\<close> and \<^verbatim>\<open>?? []\<close>, but \<^verbatim>\<open>{}\<close> is not nullish, so
  \<^verbatim>\<open>controller?.controls.children\<close> reads \<^verbatim>\<open>children\<close> of \<^verbatim>\<open>undefined\<close>: on the
  document whose root has no child at all \<^verbatim>\<open>parse\<close> throws a \<^verbatim>\<open>TypeError\<close>.
\<close>

theorem parse_without_controller_throws:
  "parse (XmlDocument (XmlElement ''MixxxControllerPreset'' [] [])) None = Inl TypeError"
  by (simp add: parse_def parseMidiMapping_def)

subsection \<open>C4: the range logic of the encoder\<close>

text \<open>
  Claim C4, as amended: for an output binding with minimum 0, maximum 10, on
  \<^verbatim>\<open>0x7F\<close> and off \<^verbatim>\<open>0x00\<close>, \<^verbatim>\<open>toMidi\<close> emits no message, whether the output state
  holds the value 5 or the value 15 for the binding's group and key, or no value.
\<close>

theorem toMidi_range_binding_silent:
  "toMidi \<lparr> midiMapping = \<lparr> info = i, controls = cs,
                             outputs = [\<lparr> group = g, key = k, status = st, midino = n,
                                          minimum = Some (Num 0), maximum = Some (Num 10),
                                          on = Some (Num 0x7F), off = Some (Num 0) \<rparr>] \<rparr>,
            jsMappingSrc = js \<rparr> [(g, k) \<mapsto> NumberValue 5] = [] \<and>
   toMidi \<lparr> midiMapping = \<lparr> info = i, controls = cs,
                             outputs = [\<lparr> group = g, key = k, status = st, midino = n,
                                          minimum = Some (Num 0), maximum = Some (Num 10),
                                          on = Some (Num 0x7F), off = Some (Num 0) \<rparr>] \<rparr>,
            jsMappingSrc = js \<rparr> [(g, k) \<mapsto> NumberValue 15] = [] \<and>
   toMidi \<lparr> midiMapping = \<lparr> info = i, controls = cs,
                             outputs = [\<lparr> group = g, key = k, status = st, midino = n,
                                          minimum = Some (Num 0), maximum = Some (Num 10),
                                          on = Some (Num 0x7F), off = Some (Num 0) \<rparr>] \<rparr>,
            jsMappingSrc = js \<rparr> Map.empty = []"
  by (simp add: toMidi_def)

text \<open>
  Claim C4 as stated asks for one message with the second data byte \<^verbatim>\<open>0x7F\<close> at the
  value 5; \<^verbatim>\<open>toMidi\<close> returns no message there.
\<close>

theorem toMidi_range_counterexample:
  "toMidi \<lparr> midiMapping = \<lparr> info = \<lparr> name = None, author = None, description = None \<rparr>,
                             controls = [],
                             outputs = [\<lparr> group = ''[Channel1]'', key = ''play_indicator'',
                                          status = Num 0x90, midino = Num 0x20,
                                          minimum = Some (Num 0), maximum = Some (Num 10),
                                          on = Some (Num 0x7F), off = Some (Num 0) \<rparr>] \<rparr>,
            jsMappingSrc = None \<rparr>
          [(''[Channel1]'', ''play_indicator'') \<mapsto> NumberValue 5] = []"
  by (simp add: toMidi_def)

subsection \<open>C5: down and up\<close>

text \<open>
  Claim C5: against a mapping whose only control is
  \<^verbatim>\<open>{status: 0x90, midino: 0x20, key: "play", group: "[Channel1]"}\<close>, the message
  \<^verbatim>\<open>(0x90, 0x20, 0x7F)\<close> decodes to exactly one action, a press of play on deck 1 with
  \<^verbatim>\<open>down\<close> true, and the message \<^verbatim>\<open>(0x90, 0x20, 0x00)\<close> to the same action with
  \<^verbatim>\<open>down\<close> false. The options of the control, the rest of the mapping and the script
  source are arbitrary.
\<close>

theorem fromMidi_play_down_up:
  "fromMidi \<lparr> midiMapping = \<lparr> info = i,
                               controls = [\<lparr> group = ''[Channel1]'', key = ''play'',
                                             status = Num 0x90, midino = Num 0x20,
                                             options = opts \<rparr>],
                               outputs = outs \<rparr>,
              jsMappingSrc = js \<rparr>
            \<lparr> status_byte = 0x90, data = [0x20, 0x7F] \<rparr>
     = Inr [Press Play (Some (Num 1)) True] \<and>
   fromMidi \<lparr> midiMapping = \<lparr> info = i,
                               controls = [\<lparr> group = ''[Channel1]'', key = ''play'',
                                             status = Num 0x90, midino = Num 0x20,
                                             options = opts \<rparr>],
                               outputs = outs \<rparr>,
              jsMappingSrc = js \<rparr>
            \<lparr> status_byte = 0x90, data = [0x20, 0x00] \<rparr>
     = Inr [Press Play (Some (Num 1)) False]"
proof -
  have d: "deckFromGroup ''[Channel1]'' = Some (Num 1)" by code_simp
  show ?thesis
    by (simp add: fromMidi_def matches_def at_index_def d)
qed

subsection \<open>C6: deck resolution\<close>

text \<open>
  Claim C6, as amended: \<^verbatim>\<open>deckFromGroup\<close> gives 1 for \<^verbatim>\<open>[Channel1]\<close>, 12 for
  \<^verbatim>\<open>[Channel12]\<close>, and nothing for \<^verbatim>\<open>[Master]\<close> and for \<^verbatim>\<open>[Channel]\<close>. It has no
  failure: for every string the result is either nothing or the Number of a non-empty
  string of digits, never \<^verbatim>\<open>NaN\<close>. A string that contains no occurrence of the
  bracketed pattern gives nothing, and only such a string does.
\<close>

theorem deckFromGroup_resolution:
  "deckFromGroup ''[Channel1]'' = Some (Num 1) \<and>
   deckFromGroup ''[Channel12]'' = Some (Num 12) \<and>
   deckFromGroup ''[Master]'' = None \<and>
   deckFromGroup ''[Channel]'' = None \<and>
   (deckFromGroup g = None \<or>
    (\<exists>ds. ds \<noteq> [] \<and> list_all isDigit ds \<and>
          deckFromGroup g = Some (toNumber (digitsValue 10 ds)))) \<and>
   deckFromGroup g \<noteq> Some NaN \<and>
   ((\<not> (\<exists>p n s. occursAt g p n s)) \<longrightarrow> deckFromGroup g = None) \<and>
   (deckFromGroup g = None \<longrightarrow> \<not> (\<exists>p n s. occursAt g p n s))"
proof -
  have e1: "deckFromGroup ''[Channel1]'' = Some (Num 1)" by code_simp
  have e2: "deckFromGroup ''[Channel12]'' = Some (Num 12)" by code_simp
  have e3: "deckFromGroup ''[Master]'' = None" by code_simp
  have e4: "deckFromGroup ''[Channel]'' = None" by code_simp
  show ?thesis
    using e1 e2 e3 e4 deckFromGroup_number[of g] deckFromGroup_not_NaN[of g]
      deckFromGroup_None_iff[of g] by blast
qed

text \<open>
  The amended claim C6 at the group \<^verbatim>\<open>[Effects]\<close>: it resolves to nothing, hence the
  pattern does not occur in it.
\<close>

theorem deckFromGroup_resolution_witness:
  "deckFromGroup ''[Effects]'' = None \<and> \<not> (\<exists>p n s. occursAt ''[Effects]'' p n s)"
proof -
  have "deckFromGroup ''[Effects]'' = None" by code_simp
  then show ?thesis
    using deckFromGroup_resolution[of "''[Effects]''"] by blast
qed

text \<open>
  Claim C6 as stated gives nothing to every string of another form than the bracketed
  pattern. The regular expression of the code is not anchored: the group
  \<^verbatim>\<open>[EqualizerRack1_[Channel1]_Effect1]\<close> of an effects unit is not of that form, and
  it resolves to deck 1.
\<close>

theorem deckFromGroup_other_form_counterexample:
  "\<not> isChannelGroup ''[EqualizerRack1_[Channel1]_Effect1]'' \<and>
   deckFromGroup ''[EqualizerRack1_[Channel1]_Effect1]'' = Some (Num 1)"
  by code_simp

subsection \<open>C7: the earlier of two bindings wins\<close>

text \<open>
  Claim C7: let the controls hold a binding \<open>b1\<close> and, later, a binding \<open>b2\<close> with the same
  status and note, whatever their keys, and let the message carry that status and note and
  any second data byte \<open>d2\<close>. Then everything after \<open>b1\<close>, and \<open>b2\<close> with it, has no
  influence: \<^verbatim>\<open>find\<close> and \<^verbatim>\<open>fromMidi\<close> give what they give on the controls up to
  \<open>b1\<close>. When no control before \<open>b1\<close> matches the message, \<open>b1\<close> is the control selected,
  and the result is the one that the key and group of \<open>b1\<close> determine.
\<close>

theorem fromMidi_first_binding_wins:
  assumes "status b1 = status b2" and "midino b1 = midino b2"
    and "status b1 = Num (uint st)" and "midino b1 = Num (uint d1)"
    and "controls (midiMapping this) = pre @ b1 # mid @ b2 # post"
  shows "find (matches \<lparr> status_byte = st, data = [d1, d2] \<rparr>) (controls (midiMapping this))
           = find (matches \<lparr> status_byte = st, data = [d1, d2] \<rparr>) (pre @ [b1]) \<and>
         fromMidi this \<lparr> status_byte = st, data = [d1, d2] \<rparr>
           = fromMidi (this \<lparr> midiMapping := (midiMapping this) \<lparr> controls := pre @ [b1] \<rparr> \<rparr>)
               \<lparr> status_byte = st, data = [d1, d2] \<rparr> \<and>
         ((\<forall>c \<in> set pre. \<not> matches \<lparr> status_byte = st, data = [d1, d2] \<rparr> c) \<longrightarrow>
            find (matches \<lparr> status_byte = st, data = [d1, d2] \<rparr>) (controls (midiMapping this))
              = Some b1 \<and>
            fromMidi this \<lparr> status_byte = st, data = [d1, d2] \<rparr>
              = Inr (if key b1 = ''play''
                     then [Press Play (deckFromGroup (group b1)) (0 < uint d2)] else []))"
proof -
  let ?msg = "\<lparr> status_byte = st, data = [d1, d2] \<rparr>"
  have m1: "matches ?msg b1"
    using assms(3,4) by (simp add: matches_def at_index_def)
  have f: "find (matches ?msg) (controls (midiMapping this)) = find (matches ?msg) (pre @ [b1])"
    using m1 by (simp add: assms(5) find_append_Cons)
  have g: "fromMidi this ?msg
             = fromMidi (this \<lparr> midiMapping := (midiMapping this) \<lparr> controls := pre @ [b1] \<rparr> \<rparr>) ?msg"
    using f by (simp add: fromMidi_def)
  have h: "(\<forall>c \<in> set pre. \<not> matches ?msg c) \<longrightarrow>
            find (matches ?msg) (controls (midiMapping this)) = Some b1 \<and>
            fromMidi this ?msg
              = Inr (if key b1 = ''play''
                     then [Press Play (deckFromGroup (group b1)) (0 < uint d2)] else [])"
  proof
    assume "\<forall>c \<in> set pre. \<not> matches ?msg c"
    then have "find (matches ?msg) pre = None" by (rule find_None_set)
    then have s: "find (matches ?msg) (controls (midiMapping this)) = Some b1"
      using m1 by (simp add: assms(5) find_append_Cons)
    then show "find (matches ?msg) (controls (midiMapping this)) = Some b1 \<and>
            fromMidi this ?msg
              = Inr (if key b1 = ''play''
                     then [Press Play (deckFromGroup (group b1)) (0 < uint d2)] else [])"
      by (simp add: fromMidi_def at_index_def)
  qed
  from f g h show ?thesis by blast
qed

text \<open>
  Claim C7 at a play binding followed by a cue binding on the same status and note: the
  play binding is selected.
\<close>

theorem fromMidi_first_binding_wins_witness:
  "find (matches \<lparr> status_byte = 0x90, data = [0x20, 0x7F] \<rparr>)
     [\<lparr> group = ''[Channel1]'', key = ''play'', status = Num 0x90, midino = Num 0x20, options = [] \<rparr>,
      \<lparr> group = ''[Channel2]'', key = ''cue_default'', status = Num 0x90, midino = Num 0x20, options = [] \<rparr>]
   = Some \<lparr> group = ''[Channel1]'', key = ''play'', status = Num 0x90, midino = Num 0x20, options = [] \<rparr> \<and>
   fromMidi \<lparr> midiMapping = \<lparr> info = \<lparr> name = None, author = None, description = None \<rparr>,
       controls = [\<lparr> group = ''[Channel1]'', key = ''play'', status = Num 0x90, midino = Num 0x20, options = [] \<rparr>,
                   \<lparr> group = ''[Channel2]'', key = ''cue_default'', status = Num 0x90, midino = Num 0x20, options = [] \<rparr>],
       outputs = [] \<rparr>, jsMappingSrc = None \<rparr>
     \<lparr> status_byte = 0x90, data = [0x20, 0x7F] \<rparr>
   = Inr [Press Play (Some (Num 1)) True]"
proof -
  let ?b1 = "\<lparr> group = ''[Channel1]'', key = ''play'', status = Num 0x90, midino = Num 0x20, options = [] \<rparr>"
  let ?b2 = "\<lparr> group = ''[Channel2]'', key = ''cue_default'', status = Num 0x90, midino = Num 0x20, options = [] \<rparr>"
  let ?mp = "\<lparr> midiMapping = \<lparr> info = \<lparr> name = None, author = None, description = None \<rparr>,
       controls = [?b1, ?b2], outputs = [] \<rparr>, jsMappingSrc = None \<rparr>"
  have d: "deckFromGroup ''[Channel1]'' = Some (Num 1)" by code_simp
  have a1: "status ?b1 = status ?b2" by simp
  have a2: "midino ?b1 = midino ?b2" by simp
  have a3: "status ?b1 = Num (uint (0x90 :: 8 word))" by simp
  have a4: "midino ?b1 = Num (uint (0x20 :: 8 word))" by simp
  have a5: "controls (midiMapping ?mp) = [] @ ?b1 # [] @ ?b2 # []" by simp
  have a6: "\<forall>c \<in> set []. \<not> matches \<lparr> status_byte = 0x90, data = [0x20, 0x7F] \<rparr> c"
    by simp
  note w = fromMidi_first_binding_wins[OF a1 a2 a3 a4 a5, of "0x7F",
      THEN conjunct2, THEN conjunct2, THEN mp, OF a6]
  have k: "key ?b1 = ''play''" "group ?b1 = ''[Channel1]''" "controls (midiMapping ?mp) = [?b1, ?b2]"
    "(0 < uint (0x7F :: 8 word)) = True"
    by simp_all
  show ?thesis
    using w unfolding k d by simp
qed

subsection \<open>C8: status and note outside the byte ranges\<close>

text \<open>
  Claim C8, as amended: \<^verbatim>\<open>parse\<close> checks no range. For a document whose root has a
  \<^verbatim>\<open>controller\<close> with \<^verbatim>\<open>controls\<close> and \<^verbatim>\<open>outputs\<close>, whose \<^verbatim>\<open>control\<close> elements have
  the four required children and \<^verbatim>\<open>options\<close>, and whose \<^verbatim>\<open>output\<close> elements have the
  four required children, \<^verbatim>\<open>parse\<close> succeeds, and the bindings are, in document order,
  those of the elements: status and note are \<^verbatim>\<open>parseInt\<close> of the texts, whatever their
  value.
\<close>

theorem parse_stores_numbers_unchecked:
  assumes "hasBindingLists doc"
    and "\<forall>c \<in> set (controlElements doc).
           \<not> missingRequired c \<and> xmlToObject (xml_children c) ''options'' \<noteq> None"
    and "\<forall>c \<in> set (outputElements doc). \<not> missingRequired c"
  shows "\<exists>m. parse doc js = Inr m \<and>
              list_all2 readsFrom (controlElements doc) (controls (midiMapping m)) \<and>
              list_all2 readsFrom (outputElements doc) (outputs (midiMapping m))"
proof -
  from assms(1) obtain ctrl cs os where r: "isXmlElement (root doc)"
    and ctrl: "xmlToObject (xml_children (root doc)) ''controller'' = Some ctrl"
    and cs: "xmlToObject (xml_children ctrl) ''controls'' = Some cs"
    and os: "xmlToObject (xml_children ctrl) ''outputs'' = Some os"
    by (auto simp: hasBindingLists_def split: option.splits)
  have ce: "controlElements doc = filter isXmlElement (xml_children cs)"
    by (simp add: controlElements_def bindingElements_def ctrl cs)
  have oe: "outputElements doc = filter isXmlElement (xml_children os)"
    by (simp add: outputElements_def bindingElements_def ctrl os)
  have "\<exists>bs. flatMap (\<lambda>c. if isXmlElement c then map_sum id (\<lambda>m. [m]) (parseControlMapping c)
                            else Inr []) (xml_children cs) = Inr bs \<and>
              list_all2 readsFrom (filter isXmlElement (xml_children cs)) bs"
    using assms(2) by (intro flatMap_elements_ok parseControlMapping_complete) (simp_all add: ce)
  then obtain bs where bs: "flatMap (\<lambda>c. if isXmlElement c
                                           then map_sum id (\<lambda>m. [m]) (parseControlMapping c)
                                           else Inr []) (xml_children cs) = Inr bs"
    and bsr: "list_all2 readsFrom (controlElements doc) bs" by (auto simp: ce)
  have "\<exists>bs. flatMap (\<lambda>c. if isXmlElement c then map_sum id (\<lambda>m. [m]) (parseOutputMapping c)
                            else Inr []) (xml_children os) = Inr bs \<and>
              list_all2 readsFrom (filter isXmlElement (xml_children os)) bs"
    using assms(3) by (intro flatMap_elements_ok parseOutputMapping_complete) (simp_all add: oe)
  then obtain cs' where cs': "flatMap (\<lambda>c. if isXmlElement c
                                           then map_sum id (\<lambda>m. [m]) (parseOutputMapping c)
                                           else Inr []) (xml_children os) = Inr cs'"
    and csr: "list_all2 readsFrom (outputElements doc) cs'" by (auto simp: oe)
  show ?thesis
    using r bsr csr by (simp add: parse_def parseMidiMapping_def Let_def ctrl cs os bs cs')
qed

text \<open>
  The amended claim C8 at a document with a control of status 300 and note 200 and an
  output of status \<^verbatim>\<open>0x190\<close> and note -1.
\<close>

theorem parse_stores_numbers_unchecked_witness:
  "\<exists>m. parse (XmlDocument (XmlElement ''MixxxControllerPreset'' [] [
            XmlElement ''controller'' [] [
              XmlElement ''controls'' [] [
                XmlElement ''control'' [] [
                  XmlElement ''group'' ''[Channel1]'' [],
                  XmlElement ''key'' ''play'' [],
                  XmlElement ''status'' ''300'' [],
                  XmlElement ''midino'' ''200'' [],
                  XmlElement ''options'' [] []]],
              XmlElement ''outputs'' [] [
                XmlElement ''output'' [] [
                  XmlElement ''group'' ''[Channel1]'' [],
                  XmlElement ''key'' ''play_indicator'' [],
                  XmlElement ''status'' ''0x190'' [],
                  XmlElement ''midino'' ''-1'' []]]]])) None = Inr m \<and>
       map status (controls (midiMapping m)) = [Num 300] \<and>
       map midino (controls (midiMapping m)) = [Num 200] \<and>
       map status (outputs (midiMapping m)) = [Num 400] \<and>
       map midino (outputs (midiMapping m)) = [Num (- 1)]"
proof -
  let ?c = "XmlElement ''control'' [] [
                  XmlElement ''group'' ''[Channel1]'' [],
                  XmlElement ''key'' ''play'' [],
                  XmlElement ''status'' ''300'' [],
                  XmlElement ''midino'' ''200'' [],
                  XmlElement ''options'' [] []]"
  let ?o = "XmlElement ''output'' [] [
                  XmlElement ''group'' ''[Channel1]'' [],
                  XmlElement ''key'' ''play_indicator'' [],
                  XmlElement ''status'' ''0x190'' [],
                  XmlElement ''midino'' ''-1'' []]"
  let ?doc = "XmlDocument (XmlElement ''MixxxControllerPreset'' [] [
            XmlElement ''controller'' [] [
              XmlElement ''controls'' [] [?c],
              XmlElement ''outputs'' [] [?o]]])"
  have ce: "controlElements ?doc = [?c]"
    by (simp add: controlElements_def bindingElements_def trim_def)
  have oe: "outputElements ?doc = [?o]"
    by (simp add: outputElements_def bindingElements_def trim_def)
  have h1: "hasBindingLists ?doc"
    by (simp add: hasBindingLists_def)
  have h2: "\<forall>c \<in> set (controlElements ?doc).
           \<not> missingRequired c \<and> xmlToObject (xml_children c) ''options'' \<noteq> None"
    by (simp add: ce missingRequired_def)
  have h3: "\<forall>c \<in> set (outputElements ?doc). \<not> missingRequired c"
    by (simp add: oe missingRequired_def)
  have p1: "parseInt ''300'' = Num 300" "parseInt ''200'' = Num 200"
    "parseInt ''0x190'' = Num 400" "parseInt ''-1'' = Num (- 1)"
    by (simp_all add: parseInt_def toNumber_def isWhiteSpace_def isRadixDigit_def digitValue_def
        digitsValue_def)
  from parse_stores_numbers_unchecked[OF h1 h2 h3, of None]
  obtain m where m: "parse ?doc None = Inr m"
    and c: "list_all2 readsFrom [?c] (controls (midiMapping m))"
    and o: "list_all2 readsFrom [?o] (outputs (midiMapping m))"
    unfolding ce oe by blast
  from c have c1: "map status (controls (midiMapping m)) = [Num 300]"
    and c2: "map midino (controls (midiMapping m)) = [Num 200]"
    by (auto simp: list_all2_Cons1 readsFrom_def trim_def isWhiteSpace_def p1)
  from o have o1: "map status (outputs (midiMapping m)) = [Num 400]"
    and o2: "map midino (outputs (midiMapping m)) = [Num (- 1)]"
    by (auto simp: list_all2_Cons1 readsFrom_def trim_def isWhiteSpace_def p1)
  show ?thesis
    by (rule exI[of _ m]) (rule conjI[OF m conjI[OF c1 conjI[OF c2 conjI[OF o1 o2]]]])
qed

text \<open>
  Claim C8 as stated asks \<^verbatim>\<open>parse\<close> to reject a status outside 0 to 255 and a note
  outside 0 to 127; the document below, with status 300 and note 200, parses to a mapping
  that holds both.
\<close>

theorem parse_out_of_range_counterexample:
  "parse (XmlDocument (XmlElement ''MixxxControllerPreset'' [] [
            XmlElement ''controller'' [] [
              XmlElement ''controls'' [] [
                XmlElement ''control'' [] [
                  XmlElement ''group'' ''[Channel1]'' [],
                  XmlElement ''key'' ''play'' [],
                  XmlElement ''status'' ''300'' [],
                  XmlElement ''midino'' ''200'' [],
                  XmlElement ''options'' [] []]],
              XmlElement ''outputs'' [] []]])) None
   = Inr \<lparr> midiMapping =
            \<lparr> info = \<lparr> name = None, author = None, description = None \<rparr>,
              controls = [\<lparr> group = ''[Channel1]'', key = ''play'', status = Num 300,
                            midino = Num 200, options = [] \<rparr>],
              outputs = [] \<rparr>,
          jsMappingSrc = None \<rparr>"
  by (simp add: parse_def parseMidiMapping_def parseControlMapping_def parseBaseMapping_def
      parseInt_def toNumber_def isWhiteSpace_def isRadixDigit_def digitValue_def digitsValue_def trim_def
      BaseMapping.defs ControlMapping.defs)

subsection \<open>C9: no feedback message\<close>

text \<open>
  Claim C9: \<^verbatim>\<open>toMidi\<close> returns the empty sequence for every mapping, parsed or not, and
  every output state.
\<close>

theorem toMidi_empty: "toMidi this output = []"
  by (simp add: toMidi_def)

subsection \<open>C10: the pattern anywhere in the group\<close>

text \<open>
  Claim C10: for every prefix \<open>p\<close>, non-empty string of digits \<open>n\<close> and suffix \<open>s\<close>, the
  group \<^verbatim>\<open>p + "[Channel" + n + "]" + s\<close> resolves to the number of the first occurrence
  of the pattern in it: the occurrence with the shortest prefix. When \<open>p\<close> has no opening
  bracket, that occurrence is the one after \<open>p\<close> and the result is the number \<open>n\<close>.
  The number of a string of digits is its Number, the value that \<^verbatim>\<open>parseInt\<close> gives and
  that the same digits denote as a literal of the language: the integer itself for up to
  15 digits, and in general the double nearest to it.
\<close>

theorem deckFromGroup_anywhere:
  assumes "n \<noteq> []" and "list_all isDigit n"
  shows "(\<exists>p' n' s'.
            occursAt (p @ ''[Channel'' @ n @ '']'' @ s) p' n' s' \<and>
            (\<forall>q m t. occursAt (p @ ''[Channel'' @ n @ '']'' @ s) q m t \<longrightarrow> length p' \<le> length q) \<and>
            deckFromGroup (p @ ''[Channel'' @ n @ '']'' @ s)
              = Some (toNumber (digitsValue 10 n'))) \<and>
         (CHR ''['' \<notin> set p \<longrightarrow>
            deckFromGroup (p @ ''[Channel'' @ n @ '']'' @ s) = Some (toNumber (digitsValue 10 n)) \<and>
            (length n \<le> 15 \<longrightarrow>
               deckFromGroup (p @ ''[Channel'' @ n @ '']'' @ s) = Some (Num (digitsValue 10 n))))"
proof
  let ?g = "p @ ''[Channel'' @ n @ '']'' @ s"
  have occ: "occursAt ?g p n s" using assms by (simp add: occursAt_def)
  then have "deckFromGroup ?g \<noteq> None"
    by (simp only: deckFromGroup_None_iff) blast
  then obtain ds where ex: "regexExec ?g = Some ds"
    by (auto simp: deckFromGroup_def split: option.splits)
  from regexExec_Some_D[OF ex] obtain p' s0 where g: "?g = p' @ s0"
    and mh: "matchHere s0 = Some ds"
    and first: "\<forall>p1 p2. p' = p1 @ p2 \<longrightarrow> p2 \<noteq> [] \<longrightarrow> matchHere (p2 @ s0) = None"
    by blast
  from mh obtain s' where s0: "occursAt s0 [] ds s'" by (auto simp: matchHere_occursAt)
  with g have o': "occursAt ?g p' ds s'" by (simp add: occursAt_suffix)
  have least: "\<forall>q m t. occursAt ?g q m t \<longrightarrow> length p' \<le> length q"
  proof (intro allI impI)
    fix q m t assume a: "occursAt ?g q m t"
    show "length p' \<le> length q"
    proof (rule ccontr)
      assume "\<not> length p' \<le> length q"
      then have "length q < length p'" by simp
      moreover from a g have "occursAt (p' @ s0) q m t" by simp
      ultimately have "\<exists>p1 p2. p' = p1 @ p2 \<and> p2 \<noteq> [] \<and> matchHere (p2 @ s0) = Some m"
        by (rule occursAt_earlier[rotated])
      then obtain p1 p2 where "p' = p1 @ p2" "p2 \<noteq> []" "matchHere (p2 @ s0) = Some m"
        by blast
      with first show False by simp
    qed
  qed
  from s0 have "ds \<noteq> []" "list_all isDigit ds" by (auto simp: occursAt_def)
  then have "parseInt ds = toNumber (digitsValue 10 ds)" by (rule parseInt_digits)
  with ex have "deckFromGroup ?g = Some (toNumber (digitsValue 10 ds))"
    by (simp add: deckFromGroup_def)
  with o' least show "\<exists>p' n' s'. occursAt ?g p' n' s' \<and>
            (\<forall>q m t. occursAt ?g q m t \<longrightarrow> length p' \<le> length q) \<and>
            deckFromGroup ?g = Some (toNumber (digitsValue 10 n'))"
    by blast
next
  let ?r = "''[Channel'' @ n @ '']'' @ s"
  show "CHR ''['' \<notin> set p \<longrightarrow>
          deckFromGroup (p @ ''[Channel'' @ n @ '']'' @ s) = Some (toNumber (digitsValue 10 n)) \<and>
          (length n \<le> 15 \<longrightarrow>
             deckFromGroup (p @ ''[Channel'' @ n @ '']'' @ s) = Some (Num (digitsValue 10 n)))"
  proof
    assume nb: "CHR ''['' \<notin> set p"
    have here: "matchHere ?r = Some n"
      using assms by (simp add: matchHere_Some_iff)
    have "regexExec (p @ ?r) = regexExec ?r"
    proof (rule regexExec_skip)
      fix p1 p2 assume p: "p = p1 @ p2" and ne: "p2 \<noteq> []"
      then obtain c r where p2: "p2 = c # r" by (cases p2) auto
      with p nb have "c \<noteq> CHR ''[''" by auto
      then show "matchHere (p2 @ ?r) = None"
        by (simp add: matchHere_def p2)
    qed
    also have "\<dots> = Some n" using here by (rule regexExec_here)
    finally have "regexExec (p @ ?r) = Some n" .
    moreover have "parseInt n = toNumber (digitsValue 10 n)"
      using assms by (rule parseInt_digits)
    ultimately have r: "deckFromGroup (p @ ''[Channel'' @ n @ '']'' @ s)
                          = Some (toNumber (digitsValue 10 n))"
      by (simp add: deckFromGroup_def)
    then show "deckFromGroup (p @ ''[Channel'' @ n @ '']'' @ s)
                 = Some (toNumber (digitsValue 10 n)) \<and>
               (length n \<le> 15 \<longrightarrow>
                  deckFromGroup (p @ ''[Channel'' @ n @ '']'' @ s) = Some (Num (digitsValue 10 n)))"
      by (simp add: digits_exact)
  qed
qed

text \<open>
  Claim C10 at the group \<^verbatim>\<open>x[Channel2]y\<close>, which resolves to 2.
\<close>

theorem deckFromGroup_anywhere_witness:
  "''2'' \<noteq> [] \<and> list_all isDigit ''2'' \<and> CHR ''['' \<notin> set ''x'' \<and>
   deckFromGroup ''x[Channel2]y'' = Some (Num 2)"
proof -
  have h1: "''2'' \<noteq> []" by simp
  have h2: "list_all isDigit ''2''" by (simp add: isDigit_def)
  have h3: "CHR ''['' \<notin> set ''x''" by simp
  have v: "digitsValue 10 ''2'' = 2" by (simp add: digitsValue_def digitValue_def)
  have l: "length ''2'' \<le> 15" by simp
  have "deckFromGroup (''x'' @ ''[Channel'' @ ''2'' @ '']'' @ ''y'') = Some (Num (digitsValue 10 ''2''))"
    using deckFromGroup_anywhere[OF h1 h2, of "''x''" "''y''"] h3 l by blast
  then have "deckFromGroup ''x[Channel2]y'' = Some (Num 2)" by (simp add: v)
  with h1 h2 h3 show ?thesis by simp
qed

end
